theory Spec2Isabelle
  imports Main
begin

section \<open>The chrome.* interface seen from lib/cdp.js\<close>

text \<open>
  \<^verbatim>\<open>lib/cdp.js\<close> drives a tab through five calls of the extension API:
  \<^verbatim>\<open>chrome.tabs.create\<close>, \<^verbatim>\<open>chrome.debugger.attach\<close>,
  \<^verbatim>\<open>chrome.debugger.sendCommand\<close>, \<^verbatim>\<open>chrome.debugger.detach\<close> and
  \<^verbatim>\<open>chrome.tabs.remove\<close>. Every call is recorded, in order, in a log (the world the
  code acts on), and the browser answers each call as a function of the log so far and of
  the call's arguments, so that any behaviour of the browser is covered. A rejected promise
  is \<open>Inl\<close> with the message of the browser's error.
\<close>

type_synonym tab_id = nat

datatype cdp_params =
  NoParams                          \<comment> \<open>\<^verbatim>\<open>params = {}\<close>\<close>
| NavigateParams string             \<comment> \<open>\<^verbatim>\<open>{ url }\<close>\<close>
| EvaluateParams string bool bool   \<comment> \<open>\<^verbatim>\<open>{ expression, returnByValue, awaitPromise }\<close>\<close>

datatype api_call =
  TabsCreate                                  \<comment> \<open>\<^verbatim>\<open>chrome.tabs.create({url: 'about:blank', active: false})\<close>\<close>
| DebuggerAttach tab_id                       \<comment> \<open>\<^verbatim>\<open>chrome.debugger.attach(target, '1.3')\<close>\<close>
| DebuggerSendCommand tab_id string cdp_params  \<comment> \<open>\<^verbatim>\<open>chrome.debugger.sendCommand(target, method, params)\<close>\<close>
| DebuggerDetach tab_id                       \<comment> \<open>\<^verbatim>\<open>chrome.debugger.detach(target)\<close>\<close>
| TabsRemove tab_id                           \<comment> \<open>\<^verbatim>\<open>chrome.tabs.remove(tabId)\<close>\<close>

type_synonym world = "api_call list"

text \<open>The values a page can hand back by value, as far as the library looks at them.\<close>

datatype js_value = Undefined | Null | Bool bool | Num int | Str string

text \<open>
  The reply to a command, as far as \<^verbatim>\<open>evaluate\<close> reads it:
  \<^verbatim>\<open>result.exceptionDetails\<close> (its \<^verbatim>\<open>text\<close>, when present) and
  \<^verbatim>\<open>result.result?.value\<close> (\<open>Undefined\<close> when absent).
\<close>

record cdp_response =
  exceptionDetails :: "string option"
  result_value :: js_value

record browser =
  tabs_create :: "world \<Rightarrow> string + tab_id"
  debugger_attach :: "world \<Rightarrow> tab_id \<Rightarrow> string + unit"
  debugger_sendCommand :: "world \<Rightarrow> tab_id \<Rightarrow> string \<Rightarrow> cdp_params \<Rightarrow> string + cdp_response"
  debugger_detach :: "world \<Rightarrow> tab_id \<Rightarrow> string + unit"
  tabs_remove :: "world \<Rightarrow> tab_id \<Rightarrow> string + unit"

text \<open>
  The errors the library raises, by their messages:
  \<^item> \<open>NotAttached\<close>: \<^verbatim>\<open>Error('Debugger not attached')\<close>;
  \<^item> \<open>NavigationTimeout t\<close>: \<^verbatim>\<open>Error(`Navigation timeout after ${timeout}ms`)\<close>;
  \<^item> \<open>SelectorTimeout s\<close>: \<^verbatim>\<open>Error(`Timeout waiting for selector: ${selector}`)\<close>;
  \<^item> \<open>EvaluationFailed t\<close>: \<^verbatim>\<open>Error(`Evaluation failed: ${result.exceptionDetails.text}`)\<close>;
  \<^item> \<open>ChromeError m\<close>: an error of the browser's, passed on unchanged.
\<close>

datatype error =
  NotAttached
| NavigationTimeout int
| SelectorTimeout string
| EvaluationFailed string
| ChromeError string

section \<open>The Page class\<close>

text \<open>
  The constructor sets \<^verbatim>\<open>tabId\<close>, \<^verbatim>\<open>target = { tabId }\<close>,
  \<^verbatim>\<open>_attached = false\<close> and an \<^verbatim>\<open>_eventListeners\<close> map that no method reads or
  writes; the record keeps the two fields the methods use.
\<close>

record page =
  tabId :: tab_id
  attached :: bool

definition new_Page :: "tab_id \<Rightarrow> page" where
  "new_Page tab = \<lparr>tabId = tab, attached = False\<rparr>"

text \<open>
  \<^verbatim>\<open>_sendCommand\<close>: throws before anything is transmitted when the page is not attached;
  otherwise transmits and passes on the browser's result or error.
\<close>

definition sendCommand ::
  "browser \<Rightarrow> page \<Rightarrow> string \<Rightarrow> cdp_params \<Rightarrow> world \<Rightarrow> (error + cdp_response) \<times> world" where
  "sendCommand b p method params w =
     (if \<not> attached p then (Inl NotAttached, w)
      else
        (case debugger_sendCommand b w (tabId p) method params of
           Inl m \<Rightarrow> (Inl (ChromeError m), w @ [DebuggerSendCommand (tabId p) method params])
         | Inr r \<Rightarrow> (Inr r, w @ [DebuggerSendCommand (tabId p) method params])))"

text \<open>
  \<^verbatim>\<open>_attach\<close>: nothing to do when already attached; otherwise attaches, sets the flag and
  enables the three domains. The page is returned next to the result, since the flag stays
  set when one of the enabling commands fails.
\<close>

definition attach :: "browser \<Rightarrow> page \<Rightarrow> world \<Rightarrow> (error + unit) \<times> page \<times> world" where
  "attach b p w =
     (if attached p then (Inr (), p, w)
      else
        (case debugger_attach b w (tabId p) of
           Inl m \<Rightarrow> (Inl (ChromeError m), p, w @ [DebuggerAttach (tabId p)])
         | Inr _ \<Rightarrow>
             (let p1 = p\<lparr>attached := True\<rparr>;
                  w1 = w @ [DebuggerAttach (tabId p)]
              in case sendCommand b p1 ''Page.enable'' NoParams w1 of
                   (Inl e, w2) \<Rightarrow> (Inl e, p1, w2)
                 | (Inr _, w2) \<Rightarrow>
                     (case sendCommand b p1 ''Runtime.enable'' NoParams w2 of
                        (Inl e, w3) \<Rightarrow> (Inl e, p1, w3)
                      | (Inr _, w3) \<Rightarrow>
                          (case sendCommand b p1 ''DOM.enable'' NoParams w3 of
                             (Inl e, w4) \<Rightarrow> (Inl e, p1, w4)
                           | (Inr _, w4) \<Rightarrow> (Inr (), p1, w4))))))"

text \<open>
  \<^verbatim>\<open>createPage\<close>: a new blank tab, a Page for it, \<^verbatim>\<open>_attach\<close>. When the tab cannot be
  created or \<^verbatim>\<open>_attach\<close> throws, the caller gets the error and no Page.
\<close>

definition createPage :: "browser \<Rightarrow> world \<Rightarrow> (error + page) \<times> world" where
  "createPage b w =
     (case tabs_create b w of
        Inl m \<Rightarrow> (Inl (ChromeError m), w @ [TabsCreate])
      | Inr tab \<Rightarrow>
          (case attach b (new_Page tab) (w @ [TabsCreate]) of
             (Inl e, p, w') \<Rightarrow> (Inl e, w')
           | (Inr _, p, w') \<Rightarrow> (Inr p, w')))"

text \<open>
  \<^verbatim>\<open>close\<close>: when attached, detach (an error is caught and dropped) and clear the flag;
  then, in every case, remove the tab (an error is caught and dropped).
\<close>

definition detach_step :: "browser \<Rightarrow> page \<Rightarrow> world \<Rightarrow> page \<times> world" where
  "detach_step b p w =
     (if attached p then
        (case debugger_detach b w (tabId p) of
           Inl _ \<Rightarrow> (p\<lparr>attached := False\<rparr>, w @ [DebuggerDetach (tabId p)])
         | Inr _ \<Rightarrow> (p\<lparr>attached := False\<rparr>, w @ [DebuggerDetach (tabId p)]))
      else (p, w))"

definition close :: "browser \<Rightarrow> page \<Rightarrow> world \<Rightarrow> (error + unit) \<times> page \<times> world" where
  "close b p w =
     (case detach_step b p w of
        (p1, w1) \<Rightarrow>
          (case tabs_remove b w1 (tabId p1) of
             Inl _ \<Rightarrow> (Inr (), p1, w1 @ [TabsRemove (tabId p1)])
           | Inr _ \<Rightarrow> (Inr (), p1, w1 @ [TabsRemove (tabId p1)])))"

section \<open>Evaluation and the helpers built on it\<close>

text \<open>
  \<^verbatim>\<open>evaluate\<close>: one \<^verbatim>\<open>Runtime.evaluate\<close> command with \<^verbatim>\<open>returnByValue\<close> and
  \<^verbatim>\<open>awaitPromise\<close> set; an exception in the page becomes an error, otherwise the value
  is unwrapped.
\<close>

definition evaluate :: "browser \<Rightarrow> page \<Rightarrow> string \<Rightarrow> world \<Rightarrow> (error + js_value) \<times> world" where
  "evaluate b p expression w =
     (case sendCommand b p ''Runtime.evaluate'' (EvaluateParams expression True True) w of
        (Inl e, w') \<Rightarrow> (Inl e, w')
      | (Inr result, w') \<Rightarrow>
          (case exceptionDetails result of
             Some text \<Rightarrow> (Inl (EvaluationFailed text), w')
           | None \<Rightarrow> (Inr (result_value result), w')))"

text \<open>
  The characters the templates need by code: the single quote, the backslash and the
  line break.
\<close>

abbreviation SQ :: char where "SQ \<equiv> CHR 0x27"
abbreviation BS :: char where "BS \<equiv> CHR 0x5C"
abbreviation NL :: char where "NL \<equiv> CHR 0x0A"

text \<open>
  \<^verbatim>\<open>s.replace(/'/g, "\\'")\<close>: every single quote becomes backslash, quote; every other
  character, the backslash included, is kept as it is.
\<close>

fun escapeQuotes :: "string \<Rightarrow> string" where
  "escapeQuotes [] = []"
| "escapeQuotes (c # cs) =
     (if c = SQ then BS # SQ # escapeQuotes cs else c # escapeQuotes cs)"

text \<open>
  The expression each helper hands to \<^verbatim>\<open>evaluate\<close>: the template literal of the source,
  line by line, with the interpolated values where the source has them.
\<close>

definition getText_expr :: "string \<Rightarrow> string" where
  "getText_expr selector =
     (let escapedSelector = escapeQuotes selector in
      [NL] @ ''      (function() {'' @ [NL] @
      ''        const el = document.querySelector('' @ [SQ] @ escapedSelector @ [SQ] @ '');'' @ [NL] @
      ''        return el ? el.textContent.trim() : null;'' @ [NL] @
      ''      })()'' @ [NL] @
      ''    '')"

definition getTextAll_expr :: "string \<Rightarrow> string" where
  "getTextAll_expr selector =
     (let escapedSelector = escapeQuotes selector in
      [NL] @ ''      (function() {'' @ [NL] @
      ''        const els = document.querySelectorAll('' @ [SQ] @ escapedSelector @ [SQ] @ '');'' @ [NL] @
      ''        return Array.from(els).map(el => el.textContent.trim());'' @ [NL] @
      ''      })()'' @ [NL] @
      ''    '')"

definition getAttribute_expr :: "string \<Rightarrow> string \<Rightarrow> string" where
  "getAttribute_expr selector attribute =
     (let escapedSelector = escapeQuotes selector in
      [NL] @ ''      (function() {'' @ [NL] @
      ''        const el = document.querySelector('' @ [SQ] @ escapedSelector @ [SQ] @ '');'' @ [NL] @
      ''        return el ? el.getAttribute('' @ [SQ] @ attribute @ [SQ] @ '') : null;'' @ [NL] @
      ''      })()'' @ [NL] @
      ''    '')"

definition exists_expr :: "string \<Rightarrow> string" where
  "exists_expr selector =
     (let escapedSelector = escapeQuotes selector in
      ''!!document.querySelector('' @ [SQ] @ escapedSelector @ [SQ] @ '')'')"

definition click_expr :: "string \<Rightarrow> string" where
  "click_expr selector =
     (let escapedSelector = escapeQuotes selector in
      [NL] @ ''      (function() {'' @ [NL] @
      ''        const el = document.querySelector('' @ [SQ] @ escapedSelector @ [SQ] @ '');'' @ [NL] @
      ''        if (el) el.click();'' @ [NL] @
      ''      })()'' @ [NL] @
      ''    '')"

definition type_expr :: "string \<Rightarrow> string \<Rightarrow> string" where
  "type_expr selector text =
     (let escapedSelector = escapeQuotes selector;
          escapedText = escapeQuotes text in
      [NL] @ ''      (function() {'' @ [NL] @
      ''        const el = document.querySelector('' @ [SQ] @ escapedSelector @ [SQ] @ '');'' @ [NL] @
      ''        if (el) {'' @ [NL] @
      ''          el.value = '' @ [SQ] @ escapedText @ [SQ] @ '';'' @ [NL] @
      ''          el.dispatchEvent(new Event('' @ [SQ] @ ''input'' @ [SQ] @ '', { bubbles: true }));'' @ [NL] @
      ''        }'' @ [NL] @
      ''      })()'' @ [NL] @
      ''    '')"

definition getText :: "browser \<Rightarrow> page \<Rightarrow> string \<Rightarrow> world \<Rightarrow> (error + js_value) \<times> world" where
  "getText b p selector w = evaluate b p (getText_expr selector) w"

definition getTextAll :: "browser \<Rightarrow> page \<Rightarrow> string \<Rightarrow> world \<Rightarrow> (error + js_value) \<times> world" where
  "getTextAll b p selector w = evaluate b p (getTextAll_expr selector) w"

definition getAttribute ::
  "browser \<Rightarrow> page \<Rightarrow> string \<Rightarrow> string \<Rightarrow> world \<Rightarrow> (error + js_value) \<times> world" where
  "getAttribute b p selector attribute w = evaluate b p (getAttribute_expr selector attribute) w"

definition exists_sel :: "browser \<Rightarrow> page \<Rightarrow> string \<Rightarrow> world \<Rightarrow> (error + js_value) \<times> world" where
  "exists_sel b p selector w = evaluate b p (exists_expr selector) w"

text \<open>\<^verbatim>\<open>click\<close> and \<^verbatim>\<open>type\<close> await the evaluation and return nothing.\<close>

definition click :: "browser \<Rightarrow> page \<Rightarrow> string \<Rightarrow> world \<Rightarrow> (error + unit) \<times> world" where
  "click b p selector w =
     (case evaluate b p (click_expr selector) w of
        (Inl e, w') \<Rightarrow> (Inl e, w')
      | (Inr _, w') \<Rightarrow> (Inr (), w'))"

definition type_text ::
  "browser \<Rightarrow> page \<Rightarrow> string \<Rightarrow> string \<Rightarrow> world \<Rightarrow> (error + unit) \<times> world" where
  "type_text b p selector text w =
     (case evaluate b p (type_expr selector text) w of
        (Inl e, w') \<Rightarrow> (Inl e, w')
      | (Inr _, w') \<Rightarrow> (Inr (), w'))"

definition content :: "browser \<Rightarrow> page \<Rightarrow> world \<Rightarrow> (error + js_value) \<times> world" where
  "content b p w = evaluate b p ''document.documentElement.outerHTML'' w"

definition url :: "browser \<Rightarrow> page \<Rightarrow> world \<Rightarrow> (error + js_value) \<times> world" where
  "url b p w = evaluate b p ''window.location.href'' w"

text \<open>
  \<^verbatim>\<open>sleep(ms)\<close> resolves after a timer; it calls nothing of the browser's interface, so
  the log is as before.
\<close>

definition sleep :: "int \<Rightarrow> world \<Rightarrow> world" where
  "sleep ms w = w"

section \<open>Navigation: goto and its wait for the load event\<close>

text \<open>
  \<^verbatim>\<open>goto\<close> builds a promise whose executor arms a timer (\<^verbatim>\<open>setTimeout\<close>) and registers
  a listener on \<^verbatim>\<open>chrome.debugger.onEvent\<close>. The state of that wait is: whether the
  listener is registered, whether the timer is still to fire, and the state of the promise.
  What happens to it afterwards is a sequence of occurrences: a debugger event
  \<^verbatim>\<open>(source, method, params)\<close> being dispatched, or the timer running out.
\<close>

datatype promise_state = Pending | Resolved | Rejected error

record load_wait =
  listener_registered :: bool
  timer_pending :: bool
  promise :: promise_state

datatype occurrence =
  DebuggerEvent tab_id string   \<comment> \<open>\<^verbatim>\<open>source.tabId\<close> and \<^verbatim>\<open>method\<close> of an event\<close>
| TimerExpired

text \<open>\<^verbatim>\<open>resolve()\<close> and \<^verbatim>\<open>reject(err)\<close> act on a pending promise only.\<close>

definition settle :: "promise_state \<Rightarrow> load_wait \<Rightarrow> load_wait" where
  "settle s lw = (if promise lw = Pending then lw\<lparr>promise := s\<rparr> else lw)"

text \<open>The executor: \<^verbatim>\<open>setTimeout(..., timeout)\<close>, then \<^verbatim>\<open>addListener(listener)\<close>.\<close>

definition start_wait :: load_wait where
  "start_wait = \<lparr>listener_registered = True, timer_pending = True, promise = Pending\<rparr>"

text \<open>
  The listener: events of other tabs are dropped; either of the two page events clears the
  timer, removes the listener and resolves; any other method is dropped.
\<close>

definition listener :: "tab_id \<Rightarrow> tab_id \<Rightarrow> string \<Rightarrow> load_wait \<Rightarrow> load_wait" where
  "listener this_tabId source_tabId method lw =
     (if source_tabId \<noteq> this_tabId then lw
      else if method = ''Page.loadEventFired'' \<or> method = ''Page.domContentEventFired'' then
        settle Resolved (lw\<lparr>timer_pending := False, listener_registered := False\<rparr>)
      else lw)"

text \<open>The timer's callback: removes the listener and rejects.\<close>

definition timer_callback :: "int \<Rightarrow> load_wait \<Rightarrow> load_wait" where
  "timer_callback timeout lw =
     settle (Rejected (NavigationTimeout timeout)) (lw\<lparr>listener_registered := False\<rparr>)"

text \<open>
  The event loop: an event reaches the listener only while it is registered, and the timer
  runs its callback, once, only if it has not been cleared.
\<close>

definition deliver :: "tab_id \<Rightarrow> int \<Rightarrow> load_wait \<Rightarrow> occurrence \<Rightarrow> load_wait" where
  "deliver this_tabId timeout lw occ =
     (case occ of
        DebuggerEvent source_tabId method \<Rightarrow>
          (if listener_registered lw then listener this_tabId source_tabId method lw else lw)
      | TimerExpired \<Rightarrow>
          (if timer_pending lw then timer_callback timeout (lw\<lparr>timer_pending := False\<rparr>) else lw))"

definition run_wait :: "tab_id \<Rightarrow> int \<Rightarrow> occurrence list \<Rightarrow> load_wait \<Rightarrow> load_wait" where
  "run_wait this_tabId timeout occs lw = foldl (deliver this_tabId timeout) lw occs"

record nav_options =
  nav_timeout :: "int option"        \<comment> \<open>\<^verbatim>\<open>options.timeout\<close>, default 30000\<close>
  nav_waitUntil :: "string option"   \<comment> \<open>\<^verbatim>\<open>options.waitUntil\<close>, default \<^verbatim>\<open>'load'\<close>\<close>

text \<open>
  \<^verbatim>\<open>goto\<close>: start the wait, send \<^verbatim>\<open>Page.navigate\<close>, await the wait's promise, sleep
  500 ms. \<open>during\<close> are the occurrences while the navigation command is awaited, \<open>after\<close>
  those while the promise is awaited. A page that is not attached throws inside
  \<^verbatim>\<open>_sendCommand\<close> before anything else can run. The result is \<open>None\<close> while the promise
  is pending; the state of the wait is returned next to the result.
\<close>

definition goto ::
  "browser \<Rightarrow> page \<Rightarrow> string \<Rightarrow> nav_options \<Rightarrow> occurrence list \<Rightarrow> occurrence list \<Rightarrow> world
     \<Rightarrow> (error + unit) option \<times> load_wait \<times> world" where
  "goto b p url_arg options during after w =
     (let timeout = (case nav_timeout options of None \<Rightarrow> 30000 | Some t \<Rightarrow> t);
          waitUntil = (case nav_waitUntil options of None \<Rightarrow> ''load'' | Some s \<Rightarrow> s);
          lw0 = start_wait
      in case sendCommand b p ''Page.navigate'' (NavigateParams url_arg) w of
           (Inl e, w1) \<Rightarrow>
             (Some (Inl e), (if attached p then run_wait (tabId p) timeout during lw0 else lw0), w1)
         | (Inr _, w1) \<Rightarrow>
             (let lw = run_wait (tabId p) timeout (during @ after) lw0
              in case promise lw of
                   Pending \<Rightarrow> (None, lw, w1)
                 | Resolved \<Rightarrow> (Some (Inr ()), lw, sleep 500 w1)
                 | Rejected e \<Rightarrow> (Some (Inl e), lw, w1)))"

section \<open>Polling: waitForSelector\<close>

text \<open>
  The loop reads the clock (\<^verbatim>\<open>Date.now()\<close>), so the clock is part of the model: a time in
  milliseconds, advanced by each existence check (the time its evaluation takes) and by
  each sleep (the interval, and what the timer is late by). The schedule lists, for every
  round of the loop, these two durations; a round for which the schedule has no entry is
  a loop that is still running (\<open>None\<close>).
\<close>

record poll_options =
  poll_timeout :: "int option"    \<comment> \<open>\<^verbatim>\<open>options.timeout\<close>, default 10000\<close>
  poll_interval :: "int option"   \<comment> \<open>\<^verbatim>\<open>options.interval\<close>, default 100\<close>

text \<open>\<^verbatim>\<open>if (exists) return\<close>: the truth value JavaScript gives a value.\<close>

fun truthy :: "js_value \<Rightarrow> bool" where
  "truthy Undefined = False"
| "truthy Null = False"
| "truthy (Bool v) = v"
| "truthy (Num n) = (n \<noteq> 0)"
| "truthy (Str s) = (s \<noteq> [])"

fun poll ::
  "browser \<Rightarrow> page \<Rightarrow> string \<Rightarrow> int \<Rightarrow> int \<Rightarrow> int \<Rightarrow> int \<Rightarrow> (nat \<times> nat) list \<Rightarrow> world
     \<Rightarrow> (error + unit) option \<times> world" where
  "poll b p selector timeout interval startTime now [] w =
     (if now - startTime < timeout then (None, w)
      else (Some (Inl (SelectorTimeout selector)), w))"
| "poll b p selector timeout interval startTime now ((latency, late) # rounds) w =
     (if now - startTime < timeout then
        (case evaluate b p (exists_expr selector) w of
           (Inl e, w1) \<Rightarrow> (Some (Inl e), w1)
         | (Inr v, w1) \<Rightarrow>
             (if truthy v then (Some (Inr ()), w1)
              else poll b p selector timeout interval startTime
                     (now + int latency + max 0 interval + int late) rounds (sleep interval w1)))
      else (Some (Inl (SelectorTimeout selector)), w))"

definition waitForSelector ::
  "browser \<Rightarrow> page \<Rightarrow> string \<Rightarrow> poll_options \<Rightarrow> int \<Rightarrow> (nat \<times> nat) list \<Rightarrow> world
     \<Rightarrow> (error + unit) option \<times> world" where
  "waitForSelector b p selector options clock rounds w =
     (let timeout = (case poll_timeout options of None \<Rightarrow> 10000 | Some t \<Rightarrow> t);
          interval = (case poll_interval options of None \<Rightarrow> 100 | Some i \<Rightarrow> i);
          startTime = clock
      in poll b p selector timeout interval startTime clock rounds w)"

section \<open>Sessions: the public operations, in any order\<close>

text \<open>
  A caller holding a Page may call its public methods in any order and go on after an
  error. Each operation carries what the environment contributes to it (occurrences, clock
  and schedule). Only \<^verbatim>\<open>close\<close> assigns a field of the page.
\<close>

datatype operation =
  Goto string nav_options "occurrence list" "occurrence list"
| WaitForSelector string poll_options int "(nat \<times> nat) list"
| Evaluate string
| GetText string
| GetTextAll string
| GetAttribute string string
| Exists string
| Click string
| Type string string
| Content
| Url
| Sleep int
| Close

fun step :: "browser \<Rightarrow> operation \<Rightarrow> page \<times> world \<Rightarrow> page \<times> world" where
  "step b (Goto u options during after) (p, w) = (p, snd (snd (goto b p u options during after w)))"
| "step b (WaitForSelector s options clock rounds) (p, w) =
     (p, snd (waitForSelector b p s options clock rounds w))"
| "step b (Evaluate e) (p, w) = (p, snd (evaluate b p e w))"
| "step b (GetText s) (p, w) = (p, snd (getText b p s w))"
| "step b (GetTextAll s) (p, w) = (p, snd (getTextAll b p s w))"
| "step b (GetAttribute s a) (p, w) = (p, snd (getAttribute b p s a w))"
| "step b (Exists s) (p, w) = (p, snd (exists_sel b p s w))"
| "step b (Click s) (p, w) = (p, snd (click b p s w))"
| "step b (Type s t) (p, w) = (p, snd (type_text b p s t w))"
| "step b Content (p, w) = (p, snd (content b p w))"
| "step b Url (p, w) = (p, snd (url b p w))"
| "step b (Sleep ms) (p, w) = (p, sleep ms w)"
| "step b Close (p, w) = snd (close b p w)"

fun run :: "browser \<Rightarrow> operation list \<Rightarrow> page \<times> world \<Rightarrow> page \<times> world" where
  "run b [] s = s"
| "run b (x # xs) s = run b xs (step b x s)"

text \<open>The value of \<^verbatim>\<open>_attached\<close> after each operation of a run.\<close>

fun flags :: "browser \<Rightarrow> operation list \<Rightarrow> page \<times> world \<Rightarrow> bool list" where
  "flags b [] s = []"
| "flags b (x # xs) s = attached (fst (step b x s)) # flags b xs (step b x s)"

text \<open>
  The flag's history over a session: at construction, after \<^verbatim>\<open>_attach\<close> (whether it
  succeeded or threw), and after each public operation that follows.
\<close>

definition session_flags :: "browser \<Rightarrow> tab_id \<Rightarrow> operation list \<Rightarrow> world \<Rightarrow> bool list" where
  "session_flags b tab ops w =
     (case attach b (new_Page tab) w of
        (r, p, w1) \<Rightarrow> attached (new_Page tab) # attached p # flags b ops (p, w1))"

text \<open>How often a flag history goes from \<open>x\<close> to \<open>y\<close> in one step.\<close>

fun transitions :: "bool \<Rightarrow> bool \<Rightarrow> bool list \<Rightarrow> nat" where
  "transitions x y (a # c # rest) =
     (if a = x \<and> c = y then 1 else 0) + transitions x y (c # rest)"
| "transitions x y rest = 0"

text \<open>The commands a log holds.\<close>

fun is_command :: "api_call \<Rightarrow> bool" where
  "is_command (DebuggerSendCommand t m ps) = True"
| "is_command c = False"

definition commands :: "world \<Rightarrow> api_call list" where
  "commands w = filter is_command w"

section \<open>An extraction routine: scrapeVirusTotal\<close>

text \<open>
  \<^verbatim>\<open>scrapeVirusTotal(ip)\<close>: \<^verbatim>\<open>page = null\<close>; in the \<^verbatim>\<open>try\<close> block
  \<^verbatim>\<open>createPage\<close>, \<^verbatim>\<open>goto\<close> with a timeout of 30000, a sleep of 6000 and one
  \<^verbatim>\<open>evaluate\<close> of the extraction script; any error is caught and returned as
  \<^verbatim>\<open>{ error }\<close>; the \<^verbatim>\<open>finally\<close> block closes the page if \<^verbatim>\<open>page\<close> is set. The text
  of the extraction script is a parameter.
\<close>

definition finally_close ::
  "browser \<Rightarrow> page option \<Rightarrow> 'a \<Rightarrow> world \<Rightarrow> 'a \<times> world" where
  "finally_close b page_var r w =
     (case page_var of
        None \<Rightarrow> (r, w)
      | Some p \<Rightarrow> (case close b p w of (_, _, w') \<Rightarrow> (r, w')))"

definition scrapeVirusTotal ::
  "browser \<Rightarrow> string \<Rightarrow> string \<Rightarrow> occurrence list \<Rightarrow> occurrence list \<Rightarrow> world
     \<Rightarrow> (error + js_value) option \<times> world" where
  "scrapeVirusTotal b ip script during after w =
     (case createPage b w of
        (Inl e, w1) \<Rightarrow> finally_close b None (Some (Inl e)) w1
      | (Inr p, w1) \<Rightarrow>
          (case goto b p (''https://www.virustotal.com/gui/ip-address/'' @ ip)
                  \<lparr>nav_timeout = Some 30000, nav_waitUntil = None\<rparr> during after w1 of
             (None, lw, w2) \<Rightarrow> (None, w2)
           | (Some (Inl e), lw, w2) \<Rightarrow> finally_close b (Some p) (Some (Inl e)) w2
           | (Some (Inr _), lw, w2) \<Rightarrow>
               (case evaluate b p script (sleep 6000 w2) of
                  (Inl e, w3) \<Rightarrow> finally_close b (Some p) (Some (Inl e)) w3
                | (Inr data, w3) \<Rightarrow> finally_close b (Some p) (Some (Inr data)) w3)))"

text \<open>How often a log asks for a tab to be opened, and for tab \<open>t\<close> to be removed.\<close>

definition tabs_opened :: "world \<Rightarrow> nat" where
  "tabs_opened w = length (filter (\<lambda>c. c = TabsCreate) w)"

definition tabs_removed :: "tab_id \<Rightarrow> world \<Rightarrow> nat" where
  "tabs_removed t w = length (filter (\<lambda>c. c = TabsRemove t) w)"

section \<open>What a wait has come to\<close>

text \<open>
  An occurrence fires the wait of tab \<open>this_tabId\<close> when it is the timer running out, or
  one of the two page events of that tab. The first such occurrence decides the outcome.
\<close>

definition fires :: "tab_id \<Rightarrow> occurrence \<Rightarrow> bool" where
  "fires this_tabId occ =
     (case occ of
        DebuggerEvent source_tabId method \<Rightarrow>
          source_tabId = this_tabId \<and>
          (method = ''Page.loadEventFired'' \<or> method = ''Page.domContentEventFired'')
      | TimerExpired \<Rightarrow> True)"

definition outcome_of :: "int \<Rightarrow> occurrence option \<Rightarrow> load_wait" where
  "outcome_of timeout first =
     (case first of
        None \<Rightarrow> start_wait
      | Some (DebuggerEvent s m) \<Rightarrow>
          \<lparr>listener_registered = False, timer_pending = False, promise = Resolved\<rparr>
      | Some TimerExpired \<Rightarrow>
          \<lparr>listener_registered = False, timer_pending = False,
           promise = Rejected (NavigationTimeout timeout)\<rparr>)"

section \<open>A page on which a selector never appears\<close>

text \<open>
  The browser answers every existence check for \<open>selector\<close> on the page's tab with the
  value \<^verbatim>\<open>false\<close> and no exception, whatever has happened before.
\<close>

definition never_matches :: "browser \<Rightarrow> page \<Rightarrow> string \<Rightarrow> bool" where
  "never_matches b p selector =
     (\<forall>w. debugger_sendCommand b w (tabId p) ''Runtime.evaluate''
             (EvaluateParams (exists_expr selector) True True)
           = Inr \<lparr>exceptionDetails = None, result_value = Bool False\<rparr>)"

section \<open>Browsers used as concrete inputs\<close>

text \<open>
  \<open>quiet_browser\<close> accepts every call, opens tab 7, and answers every command with the
  value \<^verbatim>\<open>false\<close> and no exception: a page on which no selector ever matches.
\<close>

definition quiet_browser :: browser where
  "quiet_browser =
     \<lparr>tabs_create = (\<lambda>w. Inr 7),
      debugger_attach = (\<lambda>w t. Inr ()),
      debugger_sendCommand = (\<lambda>w t m ps. Inr \<lparr>exceptionDetails = None, result_value = Bool False\<rparr>),
      debugger_detach = (\<lambda>w t. Inr ()),
      tabs_remove = (\<lambda>w t. Inr ())\<rparr>"

text \<open>
  \<open>enable_failing_browser\<close> opens tab 7 and accepts the attach, but fails every command
  (the first one sent is \<^verbatim>\<open>Page.enable\<close>).
\<close>

definition enable_failing_browser :: browser where
  "enable_failing_browser =
     \<lparr>tabs_create = (\<lambda>w. Inr 7),
      debugger_attach = (\<lambda>w t. Inr ()),
      debugger_sendCommand = (\<lambda>w t m ps. Inl ''Target closed''),
      debugger_detach = (\<lambda>w t. Inr ()),
      tabs_remove = (\<lambda>w t. Inr ())\<rparr>"

text \<open>
  \<open>teardown_failing_browser\<close> rejects both calls of the teardown: the detach and the
  removal of the tab.
\<close>

definition teardown_failing_browser :: browser where
  "teardown_failing_browser =
     \<lparr>tabs_create = (\<lambda>w. Inr 7),
      debugger_attach = (\<lambda>w t. Inr ()),
      debugger_sendCommand = (\<lambda>w t m ps. Inr \<lparr>exceptionDetails = None, result_value = Undefined\<rparr>),
      debugger_detach = (\<lambda>w t. Inl ''Debugger is not attached to the tab''),
      tabs_remove = (\<lambda>w t. Inl ''No tab with id'')\<rparr>"

section \<open>Teardown\<close>

lemma close_result: "fst (close b p w) = Inr ()"
  by (simp add: close_def split: prod.splits sum.splits)

lemma close_page: "fst (snd (close b p w)) = p\<lparr>attached := False\<rparr>"
  by (auto simp: close_def detach_step_def split: prod.splits sum.splits)

lemma close_log:
  "snd (snd (close b p w)) =
     w @ (if attached p then [DebuggerDetach (tabId p)] else []) @ [TabsRemove (tabId p)]"
  by (auto simp: close_def detach_step_def split: prod.splits sum.splits)

lemma attach_tab: "tabId (fst (snd (attach b p w))) = tabId p"
  by (simp add: attach_def Let_def split: sum.splits prod.splits)

lemma close_all:
  "close b p w =
     (Inr (), p\<lparr>attached := False\<rparr>,
      w @ (if attached p then [DebuggerDetach (tabId p)] else []) @ [TabsRemove (tabId p)])"
  using close_result [of b p w] close_page [of b p w] close_log [of b p w]
  by (cases "close b p w") simp

text \<open>
  C4. \<^verbatim>\<open>close()\<close> never raises, performs the teardown and leaves \<^verbatim>\<open>_attached\<close> false,
  whatever the state of the page and whatever the browser answers: it returns normally,
  the flag is false, and the log has grown by the detach request (when the page was
  attached) followed by the request to remove the tab. The same holds for the second of
  two calls, which asks once more for the removal; for a page that was never attached; and
  for a page whose \<^verbatim>\<open>_attach\<close> has just run and may have failed. With a browser that
  rejects both the detach and the removal, \<^verbatim>\<open>close\<close> still makes both requests, in that
  order, and returns normally, the first time and the second.
\<close>

theorem close_never_raises:
  "close b p w =
     (Inr (), p\<lparr>attached := False\<rparr>,
      w @ (if attached p then [DebuggerDetach (tabId p)] else []) @ [TabsRemove (tabId p)]) \<and>
   (case close b p w of
      (r1, p1, w1) \<Rightarrow> close b p1 w1 = (Inr (), p1, w1 @ [TabsRemove (tabId p)])) \<and>
   close b (new_Page tab) w = (Inr (), new_Page tab, w @ [TabsRemove tab]) \<and>
   (case attach b (new_Page tab) w of
      (r2, p2, w2) \<Rightarrow>
        close b p2 w2 =
          (Inr (), p2\<lparr>attached := False\<rparr>,
           w2 @ (if attached p2 then [DebuggerDetach tab] else []) @ [TabsRemove tab])) \<and>
   close teardown_failing_browser \<lparr>tabId = 7, attached = True\<rparr> [] =
     (Inr (), \<lparr>tabId = 7, attached = False\<rparr>, [DebuggerDetach 7, TabsRemove 7]) \<and>
   (case close teardown_failing_browser \<lparr>tabId = 7, attached = True\<rparr> [] of
      (r3, p3, w3) \<Rightarrow>
        close teardown_failing_browser p3 w3 =
          (Inr (), \<lparr>tabId = 7, attached = False\<rparr>,
           [DebuggerDetach 7, TabsRemove 7, TabsRemove 7]))"
proof -
  have twice: "close b (p\<lparr>attached := False\<rparr>) v = (Inr (), p\<lparr>attached := False\<rparr>, v @ [TabsRemove (tabId p)])"
    for v
    by (simp add: close_all)
  have never: "close b (new_Page tab) w = (Inr (), new_Page tab, w @ [TabsRemove tab])"
    by (simp add: close_all new_Page_def)
  obtain r2 p2 w2 where a: "attach b (new_Page tab) w = (r2, p2, w2)"
    by (cases "attach b (new_Page tab) w") auto
  have "tabId p2 = tab"
    using attach_tab [of b "new_Page tab" w] a by (simp add: new_Page_def)
  then have after_attach: "close b p2 w2 =
      (Inr (), p2\<lparr>attached := False\<rparr>,
       w2 @ (if attached p2 then [DebuggerDetach tab] else []) @ [TabsRemove tab])"
    by (simp add: close_all)
  have failing: "close teardown_failing_browser \<lparr>tabId = 7, attached = True\<rparr> [] =
     (Inr (), \<lparr>tabId = 7, attached = False\<rparr>, [DebuggerDetach 7, TabsRemove 7])"
    by (simp add: close_def detach_step_def teardown_failing_browser_def)
  have failing_twice: "close teardown_failing_browser \<lparr>tabId = 7, attached = False\<rparr>
        [DebuggerDetach 7, TabsRemove 7] =
     (Inr (), \<lparr>tabId = 7, attached = False\<rparr>, [DebuggerDetach 7, TabsRemove 7, TabsRemove 7])"
    by (simp add: close_def detach_step_def teardown_failing_browser_def)
  show ?thesis
    using twice never after_attach failing failing_twice
    by (simp add: close_all a)
qed

text \<open>
  C10. \<^verbatim>\<open>close()\<close> always asks for the tab to be removed: the log grows by the detach
  request exactly when the page was attached, and then, in every case, by the request to
  remove the page's tab. A page that was never attached gets the removal alone, and so
  does a page that is closed a second time.
\<close>

theorem close_always_removes_tab:
  "snd (snd (close b p w)) =
     w @ (if attached p then [DebuggerDetach (tabId p)] else []) @ [TabsRemove (tabId p)] \<and>
   snd (snd (close b (new_Page tab) w)) = w @ [TabsRemove tab] \<and>
   (case close b p w of
      (r1, p1, w1) \<Rightarrow> snd (snd (close b p1 w1)) = w1 @ [TabsRemove (tabId p)])"
proof -
  have first: "snd (snd (close b p w)) =
      w @ (if attached p then [DebuggerDetach (tabId p)] else []) @ [TabsRemove (tabId p)]"
    by (rule close_log)
  have never: "snd (snd (close b (new_Page tab) w)) = w @ [TabsRemove tab]"
    by (simp add: close_log new_Page_def)
  obtain r1 p1 w1 where c: "close b p w = (r1, p1, w1)"
    by (cases "close b p w") auto
  have "p1 = p\<lparr>attached := False\<rparr>"
    using close_page [of b p w] c by simp
  then have again: "snd (snd (close b p1 w1)) = w1 @ [TabsRemove (tabId p)]"
    by (simp add: close_log)
  from first never again c show ?thesis
    by simp
qed

section \<open>Commands on a page that is not attached\<close>

lemma sendCommand_detached:
  "\<not> attached p \<Longrightarrow> sendCommand b p method params w = (Inl NotAttached, w)"
  by (simp add: sendCommand_def)

lemma evaluate_detached:
  "\<not> attached p \<Longrightarrow> evaluate b p expression w = (Inl NotAttached, w)"
  by (simp add: evaluate_def sendCommand_detached)

lemma poll_detached:
  "\<not> attached p \<Longrightarrow> snd (poll b p selector timeout interval startTime now rounds w) = w"
  by (cases rounds) (auto simp: evaluate_detached)

lemma goto_detached:
  "\<not> attached p \<Longrightarrow>
     goto b p u options during after w = (Some (Inl NotAttached), start_wait, w)"
  by (simp add: goto_def sendCommand_detached)

text \<open>
  C6. On a page whose \<^verbatim>\<open>_attached\<close> is false, \<^verbatim>\<open>_sendCommand\<close>, \<^verbatim>\<open>evaluate\<close> and every
  helper built on it fail with the not-attached error and leave the log of browser calls
  as it was: nothing is transmitted. \<^verbatim>\<open>goto\<close> fails the same way, and
  \<^verbatim>\<open>waitForSelector\<close> transmits nothing either. A page is in that state after
  \<^verbatim>\<open>close()\<close>, whatever its state before, so \<^verbatim>\<open>evaluate\<close> after \<^verbatim>\<open>close\<close> fails with
  the not-attached error.
\<close>

theorem detached_fails_without_transmitting:
  assumes "\<not> attached p"
  shows "sendCommand b p cmd params w = (Inl NotAttached, w) \<and>
         evaluate b p expression w = (Inl NotAttached, w) \<and>
         getText b p selector w = (Inl NotAttached, w) \<and>
         getTextAll b p selector w = (Inl NotAttached, w) \<and>
         getAttribute b p selector attribute w = (Inl NotAttached, w) \<and>
         exists_sel b p selector w = (Inl NotAttached, w) \<and>
         click b p selector w = (Inl NotAttached, w) \<and>
         type_text b p selector typed w = (Inl NotAttached, w) \<and>
         content b p w = (Inl NotAttached, w) \<and>
         url b p w = (Inl NotAttached, w) \<and>
         fst (goto b p u options during after w) = Some (Inl NotAttached) \<and>
         snd (snd (goto b p u options during after w)) = w \<and>
         snd (waitForSelector b p selector poll_opts clock rounds w) = w \<and>
         evaluate b (fst (snd (close b q v))) expression w = (Inl NotAttached, w)"
proof -
  have closed: "\<not> attached (fst (snd (close b q v)))"
    by (simp add: close_page)
  show ?thesis
    using assms evaluate_detached [OF closed]
    by (simp add: sendCommand_detached evaluate_detached goto_detached poll_detached
        getText_def getTextAll_def getAttribute_def exists_sel_def click_def type_text_def
        content_def url_def waitForSelector_def)
qed

theorem detached_fails_without_transmitting_witness:
  "\<not> attached (new_Page 7) \<and>
   sendCommand quiet_browser (new_Page 7) ''Page.navigate'' (NavigateParams ''https://example.test'') []
     = (Inl NotAttached, []) \<and>
   evaluate quiet_browser (new_Page 7) ''1 + 1'' [] = (Inl NotAttached, []) \<and>
   getText quiet_browser (new_Page 7) ''h1'' [] = (Inl NotAttached, []) \<and>
   getTextAll quiet_browser (new_Page 7) ''h1'' [] = (Inl NotAttached, []) \<and>
   getAttribute quiet_browser (new_Page 7) ''h1'' ''id'' [] = (Inl NotAttached, []) \<and>
   exists_sel quiet_browser (new_Page 7) ''h1'' [] = (Inl NotAttached, []) \<and>
   click quiet_browser (new_Page 7) ''h1'' [] = (Inl NotAttached, []) \<and>
   type_text quiet_browser (new_Page 7) ''h1'' ''abc'' [] = (Inl NotAttached, []) \<and>
   content quiet_browser (new_Page 7) [] = (Inl NotAttached, []) \<and>
   url quiet_browser (new_Page 7) [] = (Inl NotAttached, []) \<and>
   fst (goto quiet_browser (new_Page 7) ''https://example.test''
          \<lparr>nav_timeout = None, nav_waitUntil = None\<rparr> [] [TimerExpired] []) = Some (Inl NotAttached) \<and>
   snd (snd (goto quiet_browser (new_Page 7) ''https://example.test''
          \<lparr>nav_timeout = None, nav_waitUntil = None\<rparr> [] [TimerExpired] [])) = [] \<and>
   snd (waitForSelector quiet_browser (new_Page 7) ''h1''
          \<lparr>poll_timeout = None, poll_interval = None\<rparr> 0 [(1, 1)] []) = [] \<and>
   evaluate quiet_browser (fst (snd (close quiet_browser \<lparr>tabId = 7, attached = True\<rparr> [])))
      ''1 + 1'' [] = (Inl NotAttached, [])"
proof -
  have h: "\<not> attached (new_Page 7)"
    by (simp add: new_Page_def)
  show ?thesis
    using h detached_fails_without_transmitting [OF h,
        where b = quiet_browser and w = "[]" and cmd = "''Page.navigate''"
          and params = "NavigateParams ''https://example.test''" and expression = "''1 + 1''"
          and selector = "''h1''" and attribute = "''id''" and typed = "''abc''"
          and u = "''https://example.test''"
          and options = "\<lparr>nav_timeout = None, nav_waitUntil = None\<rparr>"
          and during = "[]" and after = "[TimerExpired]"
          and poll_opts = "\<lparr>poll_timeout = None, poll_interval = None\<rparr>"
          and clock = 0 and rounds = "[(1, 1)]"
          and q = "\<lparr>tabId = 7, attached = True\<rparr>" and v = "[]"]
    by simp
qed

section \<open>The wait of goto\<close>

lemma deliver_idle:
  "\<not> fires tab occ \<Longrightarrow> deliver tab timeout start_wait occ = start_wait"
  by (auto simp: fires_def deliver_def listener_def start_wait_def split: occurrence.splits)

lemma deliver_fires:
  "fires tab occ \<Longrightarrow> deliver tab timeout start_wait occ = outcome_of timeout (Some occ)"
  by (auto simp: fires_def deliver_def listener_def timer_callback_def settle_def
      start_wait_def outcome_of_def split: occurrence.splits)

lemma deliver_settled:
  "\<not> listener_registered lw \<Longrightarrow> \<not> timer_pending lw \<Longrightarrow> deliver tab timeout lw occ = lw"
  by (auto simp: deliver_def split: occurrence.splits)

lemma run_wait_settled:
  "\<not> listener_registered lw \<Longrightarrow> \<not> timer_pending lw \<Longrightarrow> run_wait tab timeout occs lw = lw"
  unfolding run_wait_def
  by (induction occs) (auto simp: deliver_settled)

lemma outcome_settled:
  "\<not> listener_registered (outcome_of t (Some occ)) \<and> \<not> timer_pending (outcome_of t (Some occ))"
  by (auto simp: outcome_of_def split: occurrence.splits)

lemma run_wait_first:
  "run_wait tab timeout occs start_wait = outcome_of timeout (find (fires tab) occs)"
proof (induction occs)
  case Nil
  show ?case by (simp add: run_wait_def outcome_of_def)
next
  case (Cons occ occs)
  show ?case
  proof (cases "fires tab occ")
    case True
    have "run_wait tab timeout (occ # occs) start_wait
        = run_wait tab timeout occs (outcome_of timeout (Some occ))"
      by (simp add: run_wait_def deliver_fires [OF True])
    also have "\<dots> = outcome_of timeout (Some occ)"
      using outcome_settled by (simp add: run_wait_settled)
    finally show ?thesis using True by simp
  next
    case False
    have "run_wait tab timeout (occ # occs) start_wait = run_wait tab timeout occs start_wait"
      by (simp add: run_wait_def deliver_idle [OF False])
    with Cons False show ?thesis by simp
  qed
qed

lemma goto_returned_wait:
  "fst (goto b p u options during after w) = Some (Inr ()) \<or>
   fst (goto b p u options during after w) = Some (Inl (NavigationTimeout t)) \<Longrightarrow>
     listener_registered (fst (snd (goto b p u options during after w))) = False \<and>
     timer_pending (fst (snd (goto b p u options during after w))) = False"
proof -
  assume returned: "fst (goto b p u options during after w) = Some (Inr ()) \<or>
    fst (goto b p u options during after w) = Some (Inl (NavigationTimeout t))"
  define timeout where "timeout = (case nav_timeout options of None \<Rightarrow> 30000 | Some t \<Rightarrow> t)"
  define lw where "lw = run_wait (tabId p) timeout (during @ after) start_wait"
  have lw: "lw = outcome_of timeout (find (fires (tabId p)) (during @ after))"
    unfolding lw_def by (rule run_wait_first)
  have settled: "promise lw \<noteq> Pending \<Longrightarrow> \<not> listener_registered lw \<and> \<not> timer_pending lw"
    unfolding lw
    by (cases "find (fires (tabId p)) (during @ after)")
      (auto simp: outcome_of_def start_wait_def split: occurrence.splits)
  show ?thesis
  proof (cases "attached p")
    case False
    with returned show ?thesis
      by (simp add: goto_detached)
  next
    case True
    show ?thesis
    proof (cases "debugger_sendCommand b w (tabId p) ''Page.navigate'' (NavigateParams u)")
      case (Inl m)
      with True returned show ?thesis
        by (simp add: goto_def sendCommand_def)
    next
      case (Inr r)
      with True returned settled show ?thesis
        by (cases "promise lw")
          (simp_all add: goto_def sendCommand_def lw_def timeout_def)
    qed
  qed
qed

text \<open>
  C5. The wait that \<^verbatim>\<open>goto\<close> starts has exactly one outcome, decided by the first
  occurrence that fires it: while there is none the promise is pending, with the listener
  registered and the timer armed; if it is a page event of the tab the promise is resolved;
  if it is the timer the promise is rejected with the navigation timeout. In both outcomes
  the listener is no longer registered and the timer no longer pending, and nothing that
  happens later changes the outcome. Once the deadline has passed the wait has one of the
  two outcomes and its listener is gone. Whenever \<^verbatim>\<open>goto\<close> itself returns on one of the
  two paths (normally, after the event; or with the navigation timeout), the listener of
  its wait is not registered.
\<close>

theorem navigation_wait_one_outcome:
  "run_wait tab timeout occs start_wait = outcome_of timeout (find (fires tab) occs) \<and>
   run_wait tab timeout later (outcome_of timeout (Some occ)) = outcome_of timeout (Some occ) \<and>
   (promise (run_wait tab timeout (occs @ [TimerExpired]) start_wait) = Resolved \<or>
    promise (run_wait tab timeout (occs @ [TimerExpired]) start_wait)
      = Rejected (NavigationTimeout timeout)) \<and>
   listener_registered (run_wait tab timeout (occs @ [TimerExpired]) start_wait) = False \<and>
   timer_pending (run_wait tab timeout (occs @ [TimerExpired]) start_wait) = False \<and>
   (fst (goto b p u options during after w) = Some (Inr ()) \<or>
    fst (goto b p u options during after w) = Some (Inl (NavigationTimeout t)) \<longrightarrow>
      listener_registered (fst (snd (goto b p u options during after w))) = False \<and>
      timer_pending (fst (snd (goto b p u options during after w))) = False)"
proof -
  have absorbing:
    "run_wait tab timeout later (outcome_of timeout (Some occ)) = outcome_of timeout (Some occ)"
    using outcome_settled by (simp add: run_wait_settled)
  have "fires tab TimerExpired"
    by (simp add: fires_def)
  then obtain x where x: "find (fires tab) (occs @ [TimerExpired]) = Some x"
    by (cases "find (fires tab) (occs @ [TimerExpired])") (auto simp: find_None_iff)
  have deadline:
    "run_wait tab timeout (occs @ [TimerExpired]) start_wait = outcome_of timeout (Some x)"
    using run_wait_first [of tab timeout "occs @ [TimerExpired]"] x by simp
  have shape: "(promise (outcome_of timeout (Some x)) = Resolved \<or>
      promise (outcome_of timeout (Some x)) = Rejected (NavigationTimeout timeout)) \<and>
      listener_registered (outcome_of timeout (Some x)) = False \<and>
      timer_pending (outcome_of timeout (Some x)) = False"
    by (cases x) (simp_all add: outcome_of_def)
  have first: "run_wait tab timeout occs start_wait = outcome_of timeout (find (fires tab) occs)"
    by (rule run_wait_first)
  show ?thesis
    using first absorbing shape goto_returned_wait [of b p u options during after w t]
    unfolding deadline by blast
qed

theorem navigation_wait_one_outcome_witness:
  "fst (goto quiet_browser \<lparr>tabId = 7, attached = True\<rparr> ''https://example.test''
          \<lparr>nav_timeout = None, nav_waitUntil = None\<rparr> []
          [DebuggerEvent 7 ''Page.loadEventFired''] []) = Some (Inr ()) \<and>
   listener_registered (fst (snd (goto quiet_browser \<lparr>tabId = 7, attached = True\<rparr>
          ''https://example.test'' \<lparr>nav_timeout = None, nav_waitUntil = None\<rparr> []
          [DebuggerEvent 7 ''Page.loadEventFired''] []))) = False \<and>
   fst (goto quiet_browser \<lparr>tabId = 7, attached = True\<rparr> ''https://example.test''
          \<lparr>nav_timeout = None, nav_waitUntil = None\<rparr> []
          [DebuggerEvent 8 ''Page.loadEventFired'', TimerExpired] [])
     = Some (Inl (NavigationTimeout 30000)) \<and>
   listener_registered (fst (snd (goto quiet_browser \<lparr>tabId = 7, attached = True\<rparr>
          ''https://example.test'' \<lparr>nav_timeout = None, nav_waitUntil = None\<rparr> []
          [DebuggerEvent 8 ''Page.loadEventFired'', TimerExpired] []))) = False"
proof -
  have loaded:
    "fst (goto quiet_browser \<lparr>tabId = 7, attached = True\<rparr> ''https://example.test''
          \<lparr>nav_timeout = None, nav_waitUntil = None\<rparr> []
          [DebuggerEvent 7 ''Page.loadEventFired''] []) = Some (Inr ())"
    by (simp add: goto_def sendCommand_def quiet_browser_def run_wait_def deliver_def
        listener_def settle_def start_wait_def sleep_def)
  have timed_out:
    "fst (goto quiet_browser \<lparr>tabId = 7, attached = True\<rparr> ''https://example.test''
          \<lparr>nav_timeout = None, nav_waitUntil = None\<rparr> []
          [DebuggerEvent 8 ''Page.loadEventFired'', TimerExpired] [])
       = Some (Inl (NavigationTimeout 30000))"
    by (simp add: goto_def sendCommand_def quiet_browser_def run_wait_def deliver_def
        listener_def timer_callback_def settle_def start_wait_def)
  from navigation_wait_one_outcome [where b = quiet_browser
      and p = "\<lparr>tabId = 7, attached = True\<rparr>" and u = "''https://example.test''"
      and options = "\<lparr>nav_timeout = None, nav_waitUntil = None\<rparr>" and during = "[]"
      and after = "[DebuggerEvent 7 ''Page.loadEventFired'']" and w = "[]"]
    navigation_wait_one_outcome [where b = quiet_browser
      and p = "\<lparr>tabId = 7, attached = True\<rparr>" and u = "''https://example.test''"
      and options = "\<lparr>nav_timeout = None, nav_waitUntil = None\<rparr>" and during = "[]"
      and after = "[DebuggerEvent 8 ''Page.loadEventFired'', TimerExpired]" and w = "[]"
      and t = 30000]
  show ?thesis
    using loaded timed_out by simp
qed

text \<open>
  C3. \<^verbatim>\<open>goto\<close> reads \<^verbatim>\<open>waitUntil\<close> from its options and never uses it: the result is
  the same whatever the option holds. With \<^verbatim>\<open>waitUntil: 'load'\<close> on an attached page of
  tab 7, the event \<^verbatim>\<open>Page.domContentEventFired\<close> alone resolves the wait and \<^verbatim>\<open>goto\<close>
  returns, although no load event has arrived.
\<close>

theorem goto_ignores_waitUntil:
  "goto b p u (options\<lparr>nav_waitUntil := x\<rparr>) during after w = goto b p u options during after w \<and>
   goto quiet_browser \<lparr>tabId = 7, attached = True\<rparr> ''https://example.test''
      \<lparr>nav_timeout = None, nav_waitUntil = Some ''load''\<rparr>
      [] [DebuggerEvent 7 ''Page.domContentEventFired''] []
    = (Some (Inr ()),
       \<lparr>listener_registered = False, timer_pending = False, promise = Resolved\<rparr>,
       [DebuggerSendCommand 7 ''Page.navigate'' (NavigateParams ''https://example.test'')])"
  by (simp add: goto_def sendCommand_def quiet_browser_def run_wait_def deliver_def
      listener_def settle_def start_wait_def sleep_def)

section \<open>Escaping in the generated expressions\<close>

text \<open>
  C2. \<^verbatim>\<open>getAttribute\<close> escapes the selector and interpolates the attribute name as it
  is: for the attribute name \<^verbatim>\<open>x'\<close> the generated line reads
  \<^verbatim>\<open>el.getAttribute('x'')\<close>, the quote of the argument closing the literal.
  \<^verbatim>\<open>type\<close>, on the same two arguments, escapes both. The escaping itself leaves a
  backslash alone, so backslash, quote becomes backslash, backslash, quote.
\<close>

theorem getAttribute_attribute_unescaped:
  "getAttribute_expr ''a'' (''x'' @ [SQ]) =
     [NL] @ ''      (function() {'' @ [NL] @
     ''        const el = document.querySelector('' @ [SQ] @ ''a'' @ [SQ] @ '');'' @ [NL] @
     ''        return el ? el.getAttribute('' @ [SQ] @ ''x'' @ [SQ] @ [SQ] @ '') : null;'' @ [NL] @
     ''      })()'' @ [NL] @
     ''    '' \<and>
   type_expr ''a'' (''x'' @ [SQ]) =
     [NL] @ ''      (function() {'' @ [NL] @
     ''        const el = document.querySelector('' @ [SQ] @ ''a'' @ [SQ] @ '');'' @ [NL] @
     ''        if (el) {'' @ [NL] @
     ''          el.value = '' @ [SQ] @ ''x'' @ [BS, SQ] @ [SQ] @ '';'' @ [NL] @
     ''          el.dispatchEvent(new Event('' @ [SQ] @ ''input'' @ [SQ] @ '', { bubbles: true }));'' @ [NL] @
     ''        }'' @ [NL] @
     ''      })()'' @ [NL] @
     ''    '' \<and>
   escapeQuotes [BS, SQ] = [BS, BS, SQ]"
  by (simp add: getAttribute_expr_def type_expr_def)

section \<open>Extraction routines and their pages\<close>

text \<open>
  C9. When the tab is opened and the debugger attached but the first enabling command
  fails, \<^verbatim>\<open>createPage\<close> throws, \<^verbatim>\<open>page\<close> is still \<^verbatim>\<open>null\<close> in the \<^verbatim>\<open>finally\<close> block,
  and \<^verbatim>\<open>scrapeVirusTotal\<close> returns the error without closing anything: the log holds
  the opening of tab 7, the attach and the failed command, and neither a detach nor a
  removal of the tab.
\<close>

theorem scrape_leaves_tab_open:
  "scrapeVirusTotal enable_failing_browser ip script during after [] =
     (Some (Inl (ChromeError ''Target closed'')),
      [TabsCreate, DebuggerAttach 7, DebuggerSendCommand 7 ''Page.enable'' NoParams]) \<and>
   tabs_opened (snd (scrapeVirusTotal enable_failing_browser ip script during after [])) = 1 \<and>
   tabs_removed 7 (snd (scrapeVirusTotal enable_failing_browser ip script during after [])) = 0"
  by (simp add: scrapeVirusTotal_def createPage_def attach_def sendCommand_def new_Page_def
      enable_failing_browser_def finally_close_def tabs_opened_def tabs_removed_def)

section \<open>The attached flag over a session\<close>

lemma step_page: "fst (step b x (p, w)) = (if x = Close then p\<lparr>attached := False\<rparr> else p)"
  by (cases x) (simp_all add: close_page)

lemma step_flag_falls: "attached (fst (step b x (p, w))) \<Longrightarrow> attached p"
  by (simp add: step_page split: if_splits)

lemma step_detached_commands:
  "\<not> attached p \<Longrightarrow> commands (snd (step b x (p, w))) = commands w"
  by (cases x)
    (simp_all add: evaluate_detached goto_detached poll_detached getText_def getTextAll_def
      getAttribute_def exists_sel_def click_def type_text_def content_def url_def
      waitForSelector_def sleep_def close_log commands_def)

lemma run_detached:
  "\<not> attached p \<Longrightarrow>
     attached (fst (run b ops (p, w))) = False \<and> commands (snd (run b ops (p, w))) = commands w"
proof (induction ops arbitrary: p w)
  case Nil
  then show ?case by simp
next
  case (Cons x xs)
  obtain p' w' where s: "step b x (p, w) = (p', w')"
    by (cases "step b x (p, w)") auto
  from s Cons.prems have down: "\<not> attached p'"
    using step_flag_falls [of b x p w] by auto
  from s Cons.prems have same: "commands w' = commands w"
    using step_detached_commands [of p b x w] by simp
  from Cons.IH [OF down, of w'] s same show ?case by simp
qed

lemma flags_detached:
  "\<not> attached p \<Longrightarrow> flags b ops (p, w) = replicate (length ops) False"
proof (induction ops arbitrary: p w)
  case Nil
  then show ?case by simp
next
  case (Cons x xs)
  obtain p' w' where s: "step b x (p, w) = (p', w')"
    by (cases "step b x (p, w)") auto
  from s Cons.prems have down: "\<not> attached p'"
    using step_flag_falls [of b x p w] by auto
  from Cons.IH [OF down, of w'] s down show ?case by simp
qed

lemma flags_falling: "sorted (map Not (attached p # flags b ops (p, w)))"
proof (induction ops arbitrary: p w)
  case Nil
  then show ?case by simp
next
  case (Cons x xs)
  obtain p' w' where s: "step b x (p, w) = (p', w')"
    by (cases "step b x (p, w)") auto
  have le: "(\<not> attached p) \<le> (\<not> attached p')"
    using step_flag_falls [of b x p w] s by auto
  from Cons.IH [of p' w'] le s show ?case by auto
qed

lemma no_rise: "sorted (map Not fs) \<Longrightarrow> transitions False True fs = 0"
  by (induction False True fs rule: transitions.induct) auto

lemma all_down: "True \<notin> set fs \<Longrightarrow> transitions True False fs = 0"
  by (induction True False fs rule: transitions.induct) auto

lemma one_fall: "sorted (map Not fs) \<Longrightarrow> transitions True False fs \<le> 1"
proof (induction True False fs rule: transitions.induct)
  case (1 a c rest)
  show ?case
  proof (cases "a \<and> \<not> c")
    case True
    with "1.prems" have "True \<notin> set (c # rest)" by auto
    then have "transitions True False (c # rest) = 0" by (rule all_down)
    with True show ?thesis by simp
  next
    case False
    with 1 show ?thesis by auto
  qed
qed simp_all

lemma attach_flag:
  "attached (fst (snd (attach b (new_Page tab) w)))
     = (case debugger_attach b w tab of Inl m \<Rightarrow> False | Inr u \<Rightarrow> True)"
  by (simp add: attach_def new_Page_def Let_def split: sum.splits prod.splits)

text \<open>
  C8. Over a session (construction, \<^verbatim>\<open>_attach\<close>, then any public operations in any
  order, \<^verbatim>\<open>_attach\<close> being called by \<^verbatim>\<open>createPage\<close> only) the flag \<^verbatim>\<open>_attached\<close>
  goes from false to true at most once and from true to false at most once. It is true
  after \<^verbatim>\<open>_attach\<close> exactly when \<^verbatim>\<open>chrome.debugger.attach\<close> succeeded; the only
  operation that lowers it is \<^verbatim>\<open>close\<close>; after \<^verbatim>\<open>close\<close> it is never true again; and
  from a page whose flag is false no operation transmits a command, however many
  operations follow.
\<close>

theorem session_single_use:
  "transitions False True (session_flags b tab ops w) \<le> 1 \<and>
   transitions True False (session_flags b tab ops w) \<le> 1 \<and>
   attached (fst (snd (attach b (new_Page tab) w)))
     = (case debugger_attach b w tab of Inl m \<Rightarrow> False | Inr u \<Rightarrow> True) \<and>
   (attached p \<and> \<not> attached (fst (step b x (p, w))) \<longrightarrow> x = Close) \<and>
   True \<notin> set (flags b ops (snd (close b p w))) \<and>
   (\<not> attached q \<longrightarrow>
      attached (fst (run b ops (q, v))) = False \<and>
      commands (snd (run b ops (q, v))) = commands v)"
proof -
  obtain r p1 w1 where a: "attach b (new_Page tab) w = (r, p1, w1)"
    by (cases "attach b (new_Page tab) w") auto
  have sf: "session_flags b tab ops w = False # attached p1 # flags b ops (p1, w1)"
    unfolding session_flags_def a by (simp add: new_Page_def)
  have falling: "sorted (map Not (attached p1 # flags b ops (p1, w1)))"
    by (rule flags_falling)
  have rise: "transitions False True (session_flags b tab ops w) \<le> 1"
    using no_rise [OF falling] by (simp add: sf)
  have fall: "transitions True False (session_flags b tab ops w) \<le> 1"
    using one_fall [OF falling] by (simp add: sf)
  have only_close: "attached p \<and> \<not> attached (fst (step b x (p, w))) \<longrightarrow> x = Close"
    by (simp add: step_page)
  obtain r2 p2 w2 where c: "close b p w = (r2, p2, w2)"
    by (cases "close b p w") auto
  have "\<not> attached p2"
    using close_page [of b p w] c by simp
  then have after_close: "True \<notin> set (flags b ops (snd (close b p w)))"
    by (simp add: c flags_detached)
  show ?thesis
    using rise fall attach_flag only_close after_close run_detached by blast
qed

theorem session_single_use_witness:
  "session_flags quiet_browser 7 [Evaluate ''1'', Close, GetText ''h1'', Close] []
     = [False, True, True, False, False, False] \<and>
   transitions False True
     (session_flags quiet_browser 7 [Evaluate ''1'', Close, GetText ''h1'', Close] []) \<le> 1 \<and>
   transitions True False
     (session_flags quiet_browser 7 [Evaluate ''1'', Close, GetText ''h1'', Close] []) \<le> 1 \<and>
   attached \<lparr>tabId = 7, attached = True\<rparr> \<and>
   \<not> attached (fst (step quiet_browser Close (\<lparr>tabId = 7, attached = True\<rparr>, []))) \<and>
   \<not> attached (new_Page 7) \<and>
   attached (fst (run quiet_browser [Evaluate ''1'', Close, GetText ''h1'', Close]
                    (new_Page 7, []))) = False \<and>
   commands (snd (run quiet_browser [Evaluate ''1'', Close, GetText ''h1'', Close]
                    (new_Page 7, []))) = commands []"
proof -
  have flags_here:
    "session_flags quiet_browser 7 [Evaluate ''1'', Close, GetText ''h1'', Close] []
       = [False, True, True, False, False, False]"
    by (simp add: session_flags_def attach_def new_Page_def sendCommand_def quiet_browser_def
        evaluate_def getText_def close_def detach_step_def)
  have up: "attached \<lparr>tabId = 7, attached = True\<rparr>"
    by simp
  have down: "\<not> attached (fst (step quiet_browser Close (\<lparr>tabId = 7, attached = True\<rparr>, [])))"
    by (simp add: close_page)
  have fresh: "\<not> attached (new_Page 7)"
    by (simp add: new_Page_def)
  from session_single_use [where b = quiet_browser and tab = 7
      and ops = "[Evaluate ''1'', Close, GetText ''h1'', Close]" and w = "[]"
      and p = "\<lparr>tabId = 7, attached = True\<rparr>" and x = Close
      and q = "new_Page 7" and v = "[]"]
  show ?thesis
    using flags_here up down fresh by simp
qed

section \<open>How often waitForSelector checks\<close>

lemma evaluate_no_match:
  "attached p \<Longrightarrow> never_matches b p selector \<Longrightarrow>
     evaluate b p (exists_expr selector) w =
       (Inr (Bool False),
        w @ [DebuggerSendCommand (tabId p) ''Runtime.evaluate''
               (EvaluateParams (exists_expr selector) True True)])"
  by (simp add: evaluate_def sendCommand_def never_matches_def)

lemma poll_grows:
  "attached p \<Longrightarrow> never_matches b p selector \<Longrightarrow>
     length w \<le> length (snd (poll b p selector timeout interval startTime now rounds w))"
proof (induction rounds arbitrary: now w)
  case Nil
  then show ?case by simp
next
  case (Cons r rounds)
  obtain latency late where r: "r = (latency, late)" by (cases r)
  let ?w1 = "w @ [DebuggerSendCommand (tabId p) ''Runtime.evaluate''
               (EvaluateParams (exists_expr selector) True True)]"
  from Cons.IH [OF Cons.prems, where now = "now + int latency + max 0 interval + int late" and w = ?w1]
  show ?case
    by (simp add: r evaluate_no_match [OF Cons.prems] sleep_def)
qed

lemma poll_at_most:
  "attached p \<Longrightarrow> never_matches b p selector \<Longrightarrow> 0 \<le> interval \<Longrightarrow>
   timeout \<le> now - startTime + int k * interval \<Longrightarrow>
     length (snd (poll b p selector timeout interval startTime now rounds w)) \<le> length w + k"
proof (induction rounds arbitrary: now w k)
  case Nil
  then show ?case by simp
next
  case (Cons r rounds)
  obtain latency late where r: "r = (latency, late)" by (cases r)
  let ?w1 = "w @ [DebuggerSendCommand (tabId p) ''Runtime.evaluate''
               (EvaluateParams (exists_expr selector) True True)]"
  let ?now1 = "now + int latency + max 0 interval + int late"
  show ?case
  proof (cases "now - startTime < timeout")
    case False
    then show ?thesis by (simp add: r)
  next
    case True
    with Cons.prems(4) obtain j where k: "k = Suc j"
      by (cases k) auto
    have "int j * interval + interval = int k * interval"
      by (simp add: k algebra_simps)
    with Cons.prems(3,4) have "timeout \<le> ?now1 - startTime + int j * interval"
      by simp
    from Cons.IH [OF Cons.prems(1,2,3) this, where w = ?w1]
    show ?thesis
      using True by (simp add: r k evaluate_no_match [OF Cons.prems(1,2)] sleep_def)
  qed
qed

lemma poll_times_out:
  "attached p \<Longrightarrow> never_matches b p selector \<Longrightarrow> 0 \<le> interval \<Longrightarrow>
   timeout \<le> now - startTime + int (length rounds) * interval \<Longrightarrow>
     fst (poll b p selector timeout interval startTime now rounds w)
       = Some (Inl (SelectorTimeout selector))"
proof (induction rounds arbitrary: now w)
  case Nil
  then show ?case by simp
next
  case (Cons r rounds)
  obtain latency late where r: "r = (latency, late)" by (cases r)
  let ?w1 = "w @ [DebuggerSendCommand (tabId p) ''Runtime.evaluate''
               (EvaluateParams (exists_expr selector) True True)]"
  let ?now1 = "now + int latency + max 0 interval + int late"
  have "int (length rounds) * interval + interval = int (length (r # rounds)) * interval"
    by (simp add: algebra_simps)
  with Cons.prems(3,4) have "timeout \<le> ?now1 - startTime + int (length rounds) * interval"
    by simp
  from Cons.IH [OF Cons.prems(1,2,3) this, where w = ?w1]
  show ?case
    by (simp add: r evaluate_no_match [OF Cons.prems(1,2)] sleep_def)
qed

lemma poll_at_least:
  "attached p \<Longrightarrow> never_matches b p selector \<Longrightarrow> 0 \<le> interval \<Longrightarrow>
   k \<le> length rounds \<Longrightarrow>
   list_all (\<lambda>(latency, late). int latency + int late \<le> slack) (take (k - 1) rounds) \<Longrightarrow>
   0 \<le> slack \<Longrightarrow>
   now - startTime + (int k - 1) * (interval + slack) < timeout \<Longrightarrow>
     length w + k \<le> length (snd (poll b p selector timeout interval startTime now rounds w))"
proof (induction rounds arbitrary: now w k)
  case Nil
  then show ?case by simp
next
  case (Cons r rounds)
  obtain latency late where r: "r = (latency, late)" by (cases r)
  let ?w1 = "w @ [DebuggerSendCommand (tabId p) ''Runtime.evaluate''
               (EvaluateParams (exists_expr selector) True True)]"
  let ?now1 = "now + int latency + max 0 interval + int late"
  show ?case
  proof (cases k)
    case 0
    then show ?thesis
      using poll_grows [OF Cons.prems(1,2), where w = w] by simp
  next
    case (Suc j)
    have nonneg: "0 \<le> int j * (interval + slack)"
      using Cons.prems(3,6) by simp
    with Cons.prems(7) Suc have inside: "now - startTime < timeout"
      by simp
    show ?thesis
    proof (cases j)
      case 0
      from poll_grows [OF Cons.prems(1,2), where w = ?w1 and timeout = timeout and interval = interval
          and startTime = startTime and now = ?now1 and rounds = rounds]
      show ?thesis
        using inside by (simp add: r Suc 0 evaluate_no_match [OF Cons.prems(1,2)] sleep_def)
    next
      case (Suc i)
      have len: "j \<le> length rounds"
        using Cons.prems(4) \<open>k = Suc j\<close> by simp
      have first: "int latency + int late \<le> slack"
        using Cons.prems(5) \<open>k = Suc j\<close> Suc by (simp add: r)
      have rest: "list_all (\<lambda>(latency, late). int latency + int late \<le> slack) (take (j - 1) rounds)"
        using Cons.prems(5) \<open>k = Suc j\<close> Suc by (simp add: r)
      have "(int j - 1) * (interval + slack) + (interval + slack) = int j * (interval + slack)"
        by (simp add: algebra_simps)
      with Cons.prems(3,7) first \<open>k = Suc j\<close>
      have time: "?now1 - startTime + (int j - 1) * (interval + slack) < timeout"
        by simp
      from Cons.IH [OF Cons.prems(1,2,3) len rest Cons.prems(6) time, where w = ?w1]
      show ?thesis
        using inside by (simp add: r \<open>k = Suc j\<close> evaluate_no_match [OF Cons.prems(1,2)] sleep_def)
    qed
  qed
qed


lemma poll_log:
  "attached p \<Longrightarrow> never_matches b p selector \<Longrightarrow>
     \<exists>n. snd (poll b p selector timeout interval startTime now rounds w) =
           w @ replicate n (DebuggerSendCommand (tabId p) ''Runtime.evaluate''
                              (EvaluateParams (exists_expr selector) True True))"
proof (induction rounds arbitrary: now w)
  case Nil
  have "w = w @ replicate 0 (DebuggerSendCommand (tabId p) ''Runtime.evaluate''
                              (EvaluateParams (exists_expr selector) True True))"
    by simp
  then show ?case by (auto simp del: replicate.simps)
next
  case (Cons r rounds)
  obtain latency late where r: "r = (latency, late)" by (cases r)
  let ?c = "DebuggerSendCommand (tabId p) ''Runtime.evaluate''
               (EvaluateParams (exists_expr selector) True True)"
  let ?now1 = "now + int latency + max 0 interval + int late"
  show ?case
  proof (cases "now - startTime < timeout")
    case False
    have "w = w @ replicate 0 ?c" by simp
    with False show ?thesis
      unfolding r by (auto simp del: replicate.simps)
  next
    case True
    from Cons.IH [OF Cons.prems, where now = ?now1 and w = "w @ [?c]"]
    obtain n where
      "snd (poll b p selector timeout interval startTime ?now1 rounds (w @ [?c]))
         = (w @ [?c]) @ replicate n ?c" by blast
    then have "snd (poll b p selector timeout interval startTime now (r # rounds) w)
         = w @ replicate (Suc n) ?c"
      using True by (simp add: r evaluate_no_match [OF Cons.prems] sleep_def)
    then show ?thesis by blast
  qed
qed

text \<open>
  When each existence check takes 500 ms to evaluate, a wait of 1000 ms with an interval
  of 100 ms checks at 0 ms and at 600 ms, finds the deadline passed at 1200 ms and fails
  after two checks.
\<close>

theorem slow_checks_counterexample:
  "waitForSelector quiet_browser \<lparr>tabId = 7, attached = True\<rparr> ''#gone''
      \<lparr>poll_timeout = Some 1000, poll_interval = Some 100\<rparr> 0
      [(500, 0), (500, 0), (500, 0), (500, 0), (500, 0), (500, 0), (500, 0), (500, 0),
       (500, 0), (500, 0), (500, 0)] []
    = (Some (Inl (SelectorTimeout ''#gone'')),
       [DebuggerSendCommand 7 ''Runtime.evaluate'' (EvaluateParams (exists_expr ''#gone'') True True),
        DebuggerSendCommand 7 ''Runtime.evaluate'' (EvaluateParams (exists_expr ''#gone'') True True)]) \<and>
   \<not> 9 \<le> length (snd (waitForSelector quiet_browser \<lparr>tabId = 7, attached = True\<rparr> ''#gone''
      \<lparr>poll_timeout = Some 1000, poll_interval = Some 100\<rparr> 0
      [(500, 0), (500, 0), (500, 0), (500, 0), (500, 0), (500, 0), (500, 0), (500, 0),
       (500, 0), (500, 0), (500, 0)] []))"
  by (simp add: waitForSelector_def evaluate_def sendCommand_def quiet_browser_def sleep_def)

text \<open>
  C7, as the code has it. On an attached page where the selector never appears,
  \<^verbatim>\<open>waitForSelector\<close> with a timeout of 1000 ms and an interval of 100 ms fails with the
  timeout error naming the selector, provided the loop is followed for ten rounds. The log
  grows by the existence checks alone: at least one and at most ten of them, and at least
  nine when in each of the first eight rounds the evaluation and the lateness of the timer
  take 24 ms or less together.
\<close>

theorem waitForSelector_checks:
  assumes "attached p" and "never_matches b p selector" and "10 \<le> length rounds"
  shows "fst (waitForSelector b p selector \<lparr>poll_timeout = Some 1000, poll_interval = Some 100\<rparr>
                clock rounds w) = Some (Inl (SelectorTimeout selector)) \<and>
         (\<exists>n. snd (waitForSelector b p selector
                      \<lparr>poll_timeout = Some 1000, poll_interval = Some 100\<rparr> clock rounds w)
                 = w @ replicate n (DebuggerSendCommand (tabId p) ''Runtime.evaluate''
                                      (EvaluateParams (exists_expr selector) True True)) \<and>
              1 \<le> n \<and> n \<le> 10 \<and>
              (list_all (\<lambda>(latency, late). latency + late \<le> 24) (take 8 rounds) \<longrightarrow> 9 \<le> n))"
proof -
  let ?run = "poll b p selector 1000 100 clock clock rounds w"
  have unfold: "waitForSelector b p selector
      \<lparr>poll_timeout = Some 1000, poll_interval = Some 100\<rparr> clock rounds w = ?run"
    by (simp add: waitForSelector_def)
  have result: "fst ?run = Some (Inl (SelectorTimeout selector))"
    using assms by (intro poll_times_out) auto
  obtain n where n: "snd ?run = w @ replicate n (DebuggerSendCommand (tabId p)
      ''Runtime.evaluate'' (EvaluateParams (exists_expr selector) True True))"
    using poll_log [OF assms(1,2)] by blast
  have "length (snd ?run) \<le> length w + 10"
    using assms by (intro poll_at_most) auto
  then have upper: "n \<le> 10"
    by (simp add: n)
  have "length w + 1 \<le> length (snd ?run)"
    using assms by (intro poll_at_least [where slack = 0]) auto
  then have lower: "1 \<le> n"
    by (simp add: n)
  have fast: "9 \<le> n"
    if quick: "list_all (\<lambda>(latency, late). latency + late \<le> 24) (take 8 rounds)"
  proof -
    have "list_all (\<lambda>(latency, late). int latency + int late \<le> 24) (take (9 - 1) rounds)"
      using quick by (auto simp: list_all_iff)
    then have "length w + 9 \<le> length (snd ?run)"
      using assms by (intro poll_at_least [where slack = 24]) auto
    then show ?thesis by (simp add: n)
  qed
  show ?thesis
    unfolding unfold using result n upper lower fast by blast
qed

theorem waitForSelector_checks_witness:
  "attached \<lparr>tabId = 7, attached = True\<rparr> \<and>
   never_matches quiet_browser \<lparr>tabId = 7, attached = True\<rparr> ''#gone'' \<and>
   10 \<le> length [(3::nat, 2::nat), (3, 2), (3, 2), (3, 2), (3, 2), (3, 2), (3, 2), (3, 2), (3, 2), (3, 2)] \<and>
   list_all (\<lambda>(latency, late). latency + late \<le> 24)
     (take 8 [(3::nat, 2::nat), (3, 2), (3, 2), (3, 2), (3, 2), (3, 2), (3, 2), (3, 2), (3, 2), (3, 2)]) \<and>
   fst (waitForSelector quiet_browser \<lparr>tabId = 7, attached = True\<rparr> ''#gone''
          \<lparr>poll_timeout = Some 1000, poll_interval = Some 100\<rparr> 0
          [(3, 2), (3, 2), (3, 2), (3, 2), (3, 2), (3, 2), (3, 2), (3, 2), (3, 2), (3, 2)] [])
     = Some (Inl (SelectorTimeout ''#gone'')) \<and>
   (\<exists>n. snd (waitForSelector quiet_browser \<lparr>tabId = 7, attached = True\<rparr> ''#gone''
                \<lparr>poll_timeout = Some 1000, poll_interval = Some 100\<rparr> 0
                [(3, 2), (3, 2), (3, 2), (3, 2), (3, 2), (3, 2), (3, 2), (3, 2), (3, 2), (3, 2)] [])
           = [] @ replicate n (DebuggerSendCommand 7 ''Runtime.evaluate''
                                (EvaluateParams (exists_expr ''#gone'') True True)) \<and>
         9 \<le> n \<and> n \<le> 10)"
proof -
  let ?p = "\<lparr>tabId = 7, attached = True\<rparr>"
  let ?rounds = "[(3::nat, 2::nat), (3, 2), (3, 2), (3, 2), (3, 2), (3, 2), (3, 2), (3, 2), (3, 2), (3, 2)]"
  have a: "attached ?p" by simp
  have nm: "never_matches quiet_browser ?p ''#gone''"
    by (simp add: never_matches_def quiet_browser_def)
  have len: "10 \<le> length ?rounds" by simp
  have quick: "list_all (\<lambda>(latency, late). latency + late \<le> 24) (take 8 ?rounds)"
    by (simp add: numeral_eq_Suc)
  from waitForSelector_checks [OF a nm len, where clock = 0 and w = "[]"] quick
  show ?thesis
    using a nm len by auto
qed

section \<open>What the finally block closes\<close>

lemma evaluate_keeps_tabs:
  "tabs_removed t (snd (evaluate b p e w)) = tabs_removed t w"
  by (simp add: evaluate_def sendCommand_def tabs_removed_def split: sum.splits option.splits)

lemma goto_keeps_tabs:
  "tabs_removed t (snd (snd (goto b p u options during after w))) = tabs_removed t w"
  by (simp add: goto_def sendCommand_def tabs_removed_def sleep_def Let_def
      split: sum.splits promise_state.splits)

lemma close_removes_one:
  "tabs_removed (tabId p) (snd (snd (close b p w))) = tabs_removed (tabId p) w + 1"
  by (simp add: close_log tabs_removed_def)

lemma finally_close_page:
  "finally_close b (Some p) r w = (r, snd (snd (close b p w)))"
  by (simp add: finally_close_def split: prod.splits)

text \<open>
  Once \<^verbatim>\<open>createPage\<close> has returned a page, \<^verbatim>\<open>scrapeVirusTotal\<close>, whenever it returns,
  has asked exactly once for that page's tab to be removed, on the success path and on
  every error path.
\<close>

theorem scrape_closes_created_page_once:
  assumes "createPage b w = (Inr p, w1)"
    and "fst (scrapeVirusTotal b ip script during after w) \<noteq> None"
  shows "tabs_removed (tabId p) (snd (scrapeVirusTotal b ip script during after w))
           = tabs_removed (tabId p) w1 + 1"
proof -
  let ?g = "goto b p (''https://www.virustotal.com/gui/ip-address/'' @ ip)
              \<lparr>nav_timeout = Some 30000, nav_waitUntil = None\<rparr> during after w1"
  obtain gr lw w2 where g: "?g = (gr, lw, w2)"
    by (cases ?g) auto
  have "tabs_removed (tabId p) (snd (snd ?g)) = tabs_removed (tabId p) w1"
    by (rule goto_keeps_tabs)
  then have w2: "tabs_removed (tabId p) w2 = tabs_removed (tabId p) w1"
    by (simp only: g snd_conv)
  show ?thesis
  proof (cases gr)
    case None
    with assms g show ?thesis
      by (simp add: scrapeVirusTotal_def)
  next
    case (Some res)
    show ?thesis
    proof (cases res)
      case (Inl e)
      with Some assms(1) g w2 show ?thesis
        using close_removes_one [of p b w2]
        by (simp add: scrapeVirusTotal_def finally_close_page)
    next
      case (Inr u)
      obtain er w3 where ev: "evaluate b p script (sleep 6000 w2) = (er, w3)"
        by (cases "evaluate b p script (sleep 6000 w2)") auto
      have w3: "tabs_removed (tabId p) w3 = tabs_removed (tabId p) w1"
        using evaluate_keeps_tabs [of "tabId p" b p script "sleep 6000 w2"] ev w2
        by (simp add: sleep_def)
      from Inr Some assms(1) g ev w3 show ?thesis
        using close_removes_one [of p b w3]
        by (cases er) (simp_all add: scrapeVirusTotal_def finally_close_page)
    qed
  qed
qed

theorem scrape_closes_created_page_once_witness:
  "createPage quiet_browser [] =
     (Inr \<lparr>tabId = 7, attached = True\<rparr>,
      [TabsCreate, DebuggerAttach 7, DebuggerSendCommand 7 ''Page.enable'' NoParams,
       DebuggerSendCommand 7 ''Runtime.enable'' NoParams,
       DebuggerSendCommand 7 ''DOM.enable'' NoParams]) \<and>
   fst (scrapeVirusTotal quiet_browser ''8.8.8.8'' ''document.title'' []
          [DebuggerEvent 7 ''Page.loadEventFired''] []) \<noteq> None \<and>
   tabs_removed 7 (snd (scrapeVirusTotal quiet_browser ''8.8.8.8'' ''document.title'' []
          [DebuggerEvent 7 ''Page.loadEventFired''] [])) = 1"
proof -
  let ?w1 = "[TabsCreate, DebuggerAttach 7, DebuggerSendCommand 7 ''Page.enable'' NoParams,
       DebuggerSendCommand 7 ''Runtime.enable'' NoParams,
       DebuggerSendCommand 7 ''DOM.enable'' NoParams]"
  have created: "createPage quiet_browser [] = (Inr \<lparr>tabId = 7, attached = True\<rparr>, ?w1)"
    by (simp add: createPage_def attach_def new_Page_def sendCommand_def quiet_browser_def)
  have returns: "fst (scrapeVirusTotal quiet_browser ''8.8.8.8'' ''document.title'' []
          [DebuggerEvent 7 ''Page.loadEventFired''] []) \<noteq> None"
    by (simp add: scrapeVirusTotal_def createPage_def attach_def new_Page_def goto_def
        sendCommand_def quiet_browser_def
        run_wait_def deliver_def listener_def settle_def start_wait_def sleep_def evaluate_def
        finally_close_def close_def detach_step_def)
  have before: "tabs_removed 7 ?w1 = 0"
    by (simp add: tabs_removed_def)
  from scrape_closes_created_page_once [OF created returns] before
  show ?thesis
    using created returns by simp
qed

section \<open>When the navigation command fails\<close>

text \<open>
  \<^verbatim>\<open>goto\<close> starts its wait before it sends \<^verbatim>\<open>Page.navigate\<close>. When that command fails
  on an attached page before any event or the timer has come up, \<^verbatim>\<open>goto\<close> throws the
  command's error while the listener is still registered, the timer still armed and the
  promise still pending; what removes the listener later is the first firing occurrence.
\<close>

theorem goto_failure_keeps_listener:
  assumes "attached p"
    and "debugger_sendCommand b w (tabId p) ''Page.navigate'' (NavigateParams u) = Inl m"
  shows "goto b p u options [] after w =
           (Some (Inl (ChromeError m)),
            \<lparr>listener_registered = True, timer_pending = True, promise = Pending\<rparr>,
            w @ [DebuggerSendCommand (tabId p) ''Page.navigate'' (NavigateParams u)])"
  using assms by (simp add: goto_def sendCommand_def run_wait_def start_wait_def)

theorem goto_failure_keeps_listener_witness:
  "attached \<lparr>tabId = 7, attached = True\<rparr> \<and>
   debugger_sendCommand enable_failing_browser [] (tabId \<lparr>tabId = 7, attached = True\<rparr>)
     ''Page.navigate'' (NavigateParams ''https://example.test'') = Inl ''Target closed'' \<and>
   goto enable_failing_browser \<lparr>tabId = 7, attached = True\<rparr> ''https://example.test''
     \<lparr>nav_timeout = None, nav_waitUntil = None\<rparr> [] [TimerExpired] [] =
       (Some (Inl (ChromeError ''Target closed'')),
        \<lparr>listener_registered = True, timer_pending = True, promise = Pending\<rparr>,
        [DebuggerSendCommand 7 ''Page.navigate'' (NavigateParams ''https://example.test'')])"
proof -
  have a: "attached \<lparr>tabId = 7, attached = True\<rparr>"
    by simp
  have f: "debugger_sendCommand enable_failing_browser [] (tabId \<lparr>tabId = 7, attached = True\<rparr>)
     ''Page.navigate'' (NavigateParams ''https://example.test'') = Inl ''Target closed''"
    by (simp add: enable_failing_browser_def)
  from goto_failure_keeps_listener [OF a f,
      where options = "\<lparr>nav_timeout = None, nav_waitUntil = None\<rparr>" and after = "[TimerExpired]"]
  show ?thesis
    using a f by simp
qed

end
